theory Spec2Isabelle
  imports
    Complex_Main
    "HOL-Library.Char_ord"
    "HOL-Library.List_Lexorder"
    "HOL-Library.Product_Lexorder"
    "HOL-Library.Multiset"
begin

section \<open>Python texts\<close>

text \<open>
  A Python \<open>str\<close> is modelled as a \<open>string\<close> whose characters are the code points
  below 256. On these, \<open>str.isspace\<close> holds for the code points 9 to 13, 28 to 32, 133
  and 160, and \<open>str.lower\<close> moves \<open>A\<close> to \<open>Z\<close> and the accented capitals 192 to
  222 (but not the multiplication sign 215) up by 32.
\<close>

definition py_isspace :: "char \<Rightarrow> bool" where
  "py_isspace c =
     (let n = (of_char c :: nat)
      in (9 \<le> n \<and> n \<le> 13) \<or> (28 \<le> n \<and> n \<le> 32) \<or> n = 133 \<or> n = 160)"

definition py_strip :: "string \<Rightarrow> string" where
  "py_strip s = rev (dropWhile py_isspace (rev (dropWhile py_isspace s)))"



definition is_digit :: "char \<Rightarrow> bool" where
  "is_digit c = (48 \<le> (of_char c :: nat) \<and> (of_char c :: nat) \<le> 57)"

definition digit_val :: "char \<Rightarrow> nat" where
  "digit_val c = of_char c - 48"

definition digit_char :: "nat \<Rightarrow> char" where
  "digit_char n = char_of (48 + n)"

datatype py_error = ValueError

subsection \<open>\<open>int(x)\<close>\<close>

text \<open>
  \<open>add_activity\<close> calls \<open>int\<close> on its \<open>duration\<close> and \<open>calories\<close> arguments. The
  text menu passes integers; a direct caller may pass a text. \<open>int\<close> of an integer is the
  integer. \<open>int\<close> of a text strips surrounding whitespace, reads an optional sign and
  then decimal digits, where single underscores may stand between digits; anything else
  raises \<open>ValueError\<close>. (The interpreter's cap on the number of digits of a converted text
  is left out, and so are floating-point arguments.)
\<close>

datatype pyval = PyInt int | PyStr string

fun digits_acc :: "nat \<Rightarrow> string \<Rightarrow> nat option" where
  "digits_acc n [] = Some n"
| "digits_acc n [c] = (if is_digit c then Some (10 * n + digit_val c) else None)"
| "digits_acc n (c # d # r) =
     (if is_digit c then digits_acc (10 * n + digit_val c) (d # r)
      else if c = CHR ''_'' \<and> is_digit d then digits_acc (10 * n + digit_val d) r
      else None)"

definition py_digits :: "string \<Rightarrow> nat option" where
  "py_digits s =
     (case s of
        [] \<Rightarrow> None
      | c # r \<Rightarrow> if is_digit c then digits_acc (digit_val c) r else None)"

definition int_of_str :: "string \<Rightarrow> py_error + int" where
  "int_of_str s =
     (case py_strip s of
        [] \<Rightarrow> Inl ValueError
      | c # r \<Rightarrow>
          if c = CHR ''-'' then
            (case py_digits r of None \<Rightarrow> Inl ValueError | Some n \<Rightarrow> Inr (- int n))
          else if c = CHR ''+'' then
            (case py_digits r of None \<Rightarrow> Inl ValueError | Some n \<Rightarrow> Inr (int n))
          else
            (case py_digits (c # r) of None \<Rightarrow> Inl ValueError | Some n \<Rightarrow> Inr (int n)))"

fun py_int :: "pyval \<Rightarrow> py_error + int" where
  "py_int (PyInt n) = Inr n"
| "py_int (PyStr s) = int_of_str s"

section \<open>Dates\<close>

text \<open>
  The program builds its dates with \<open>datetime.strptime(text, "%Y-%m-%d")\<close>, which gives a
  \<open>datetime\<close> at midnight; the model keeps the calendar date. Dates compare by year, then
  month, then day.
\<close>

datatype date = Date (year: nat) (month: nat) (day: nat)


definition is_leap :: "nat \<Rightarrow> bool" where
  "is_leap y = (y mod 4 = 0 \<and> (y mod 100 \<noteq> 0 \<or> y mod 400 = 0))"

definition days_in_month :: "nat \<Rightarrow> nat \<Rightarrow> nat" where
  "days_in_month y m =
     (if m = 2 then (if is_leap y then 29 else 28)
      else if m = 4 \<or> m = 6 \<or> m = 9 \<or> m = 11 then 30 else 31)"

definition valid_date :: "date \<Rightarrow> bool" where
  "valid_date d =
     (1 \<le> year d \<and> year d \<le> 9999 \<and> 1 \<le> month d \<and> month d \<le> 12 \<and>
      1 \<le> day d \<and> day d \<le> days_in_month (year d) (month d))"

subsection \<open>\<open>datetime.strptime(text, "%Y-%m-%d")\<close>\<close>

text \<open>
  \<open>strptime\<close> turns the format into a regular expression and matches the text against
  it: \<open>%Y\<close> is \<open>\d\d\d\d\<close>, \<open>%m\<close> is \<open>1[0-2]|0[1-9]|[1-9]\<close> and \<open>%d\<close> is
  \<open>3[01]|[12]\d|0[1-9]|[1-9]| [1-9]\<close>. Each matcher below lists the ways its group can
  match a prefix of the text, in the order of the alternatives, with the value read and
  the text left; the first way that lets the whole expression match is the one a
  backtracking matcher finds. Text left over after the match, a year 0 and a day the
  month does not have all raise \<open>ValueError\<close>.
\<close>

fun lit :: "char \<Rightarrow> string \<Rightarrow> string list" where
  "lit c (a # rest) = (if a = c then [rest] else [])"
| "lit c [] = []"

fun two_chars :: "(char \<Rightarrow> bool) \<Rightarrow> (char \<Rightarrow> bool) \<Rightarrow> string \<Rightarrow> (nat \<times> string) list" where
  "two_chars p q (a # b # rest) =
     (if p a \<and> q b then [(10 * digit_val a + digit_val b, rest)] else [])"
| "two_chars p q _ = []"

fun one_char :: "(char \<Rightarrow> bool) \<Rightarrow> string \<Rightarrow> (nat \<times> string) list" where
  "one_char p (a # rest) = (if p a then [(digit_val a, rest)] else [])"
| "one_char p [] = []"

fun space_char :: "(char \<Rightarrow> bool) \<Rightarrow> string \<Rightarrow> (nat \<times> string) list" where
  "space_char q (a # b # rest) = (if a = CHR '' '' \<and> q b then [(digit_val b, rest)] else [])"
| "space_char q _ = []"

definition in_1_9 :: "char \<Rightarrow> bool" where
  "in_1_9 c = (is_digit c \<and> c \<noteq> CHR ''0'')"

fun match_Y :: "string \<Rightarrow> (nat \<times> string) list" where
  "match_Y (a # b # c # d # rest) =
     (if is_digit a \<and> is_digit b \<and> is_digit c \<and> is_digit d
      then [(1000 * digit_val a + 100 * digit_val b + 10 * digit_val c + digit_val d, rest)]
      else [])"
| "match_Y _ = []"

definition match_m :: "string \<Rightarrow> (nat \<times> string) list" where
  "match_m s =
     two_chars (\<lambda>a. a = CHR ''1'') (\<lambda>b. b \<in> set ''012'') s @
     two_chars (\<lambda>a. a = CHR ''0'') in_1_9 s @
     one_char in_1_9 s"

definition match_d :: "string \<Rightarrow> (nat \<times> string) list" where
  "match_d s =
     two_chars (\<lambda>a. a = CHR ''3'') (\<lambda>b. b \<in> set ''01'') s @
     two_chars (\<lambda>a. a \<in> set ''12'') is_digit s @
     two_chars (\<lambda>a. a = CHR ''0'') in_1_9 s @
     one_char in_1_9 s @
     space_char in_1_9 s"

definition then_lit :: "char \<Rightarrow> (nat \<times> string) list \<Rightarrow> (nat \<times> string) list" where
  "then_lit c ms = concat (map (\<lambda>(v, r). map (Pair v) (lit c r)) ms)"

definition regex_ymd :: "string \<Rightarrow> (nat \<times> nat \<times> nat \<times> string) list" where
  "regex_ymd s =
     concat (map (\<lambda>(y, r1).
       concat (map (\<lambda>(m, r2).
         map (\<lambda>(d, r3). (y, m, d, r3)) (match_d r2))
       (then_lit CHR ''-'' (match_m r1))))
     (then_lit CHR ''-'' (match_Y s)))"

definition strptime :: "string \<Rightarrow> py_error + date" where
  "strptime s =
     (case regex_ymd s of
        [] \<Rightarrow> Inl ValueError
      | (y, m, d, rest) # _ \<Rightarrow>
          if rest \<noteq> [] then Inl ValueError
          else if valid_date (Date y m d) then Inr (Date y m d)
          else Inl ValueError)"

section \<open>The tracker\<close>

text \<open>
  The \<open>DataFrame\<close> \<open>self.df\<close> is modelled as the list of its rows, in index order, each
  with the four columns as \<open>add_activity\<close> fills them: a date, a text and two
  integers. The two number columns are 64-bit integer columns, as \<open>read_csv\<close> and
  \<open>to_numeric\<close> make them: a row holds the number itself, and what pandas computes
  on the column is computed in signed 64-bit arithmetic. The file at
  \<open>csv_path\<close> is part of the state: it is absent, or \<open>read_csv\<close> cannot read it (it
  raises), or it is a table with the four columns, modelled as its data rows of cell
  texts after the quoting of the CSV syntax is undone. \<open>writable\<close> says whether
  \<open>to_csv\<close> can write the file. What a method prints is returned beside its result.
\<close>

record row =
  date :: date
  activity_type :: string
  duration :: int
  calories_burned :: int

type_synonym csv_row = "string \<times> string \<times> string \<times> string"

datatype csv_file = NoFile | Unreadable | Csv "csv_row list"

record tracker =
  df :: "row list"
  disk :: csv_file
  writable :: bool

subsection \<open>\<open>_save\<close>\<close>

text \<open>
  \<open>to_csv\<close> writes a midnight \<open>datetime\<close> column as \<open>YYYY-MM-DD\<close>, a text as it is and
  an integer in decimal. When the write raises, \<open>_save\<close> prints and goes on.
\<close>

fun nat_text :: "nat \<Rightarrow> string" where
  "nat_text n = (if n < 10 then [digit_char n] else nat_text (n div 10) @ [digit_char (n mod 10)])"

declare nat_text.simps [simp del]

definition int_text :: "int \<Rightarrow> string" where
  "int_text i = (if i < 0 then CHR ''-'' # nat_text (nat (- i)) else nat_text (nat i))"

definition pad2 :: "nat \<Rightarrow> string" where
  "pad2 n = [digit_char (n div 10 mod 10), digit_char (n mod 10)]"

definition pad4 :: "nat \<Rightarrow> string" where
  "pad4 n = [digit_char (n div 1000 mod 10), digit_char (n div 100 mod 10),
             digit_char (n div 10 mod 10), digit_char (n mod 10)]"

definition date_text :: "date \<Rightarrow> string" where
  "date_text d = pad4 (year d) @ ''-'' @ pad2 (month d) @ ''-'' @ pad2 (day d)"

definition csv_of_row :: "row \<Rightarrow> csv_row" where
  "csv_of_row r =
     (date_text (date r), activity_type r, int_text (duration r), int_text (calories_burned r))"

definition to_csv :: "row list \<Rightarrow> csv_row list" where
  "to_csv rows = map csv_of_row rows"

definition save :: "tracker \<Rightarrow> tracker \<times> string list" where
  "save t =
     (if writable t then (t\<lparr>disk := Csv (to_csv (df t))\<rparr>, [])
      else (t, [''Failed to save data'']))"

subsection \<open>\<open>_load_data\<close>\<close>

text \<open>
  \<open>read_csv\<close> reads a cell that is one of its default missing-value markers as missing.
  \<open>to_datetime\<close> and \<open>to_numeric\<close> with \<open>errors='coerce'\<close> turn what they cannot read
  into a missing value; which texts pandas can read is not fixed here: the two
  conversions are parameters of the model, applied cell by cell. \<open>dropna\<close> keeps the
  rows with no missing value in the four columns.

  \<open>read_csv\<close> is called without \<open>dtype\<close>, so it also chooses the type of each column
  from its cells: an \<open>activity_type\<close> column whose cells all read as numbers, or all as
  truth values, is loaded as numbers or truth values and not as the texts in the file.
  Which columns pandas reads so is the third parameter, \<open>non_text\<close>, applied to the
  cells of the column that are not missing. The rows of the model hold texts, so the
  loaded frame says whether its \<open>activity_type\<close> column is the texts of its rows
  (\<open>text_typed\<close>) or values of another type that were read from these texts. The
  methods of the tracker are modelled on text-typed frames.
\<close>

definition na_values :: "string list" where
  "na_values =
     ['''', ''#N/A'', ''#N/A N/A'', ''#NA'', ''-1.#IND'', ''-1.#QNAN'', ''-NaN'', ''-nan'',
      ''1.#IND'', ''1.#QNAN'', ''<NA>'', ''N/A'', ''NA'', ''NULL'', ''NaN'', ''None'',
      ''n/a'', ''nan'', ''null'']"

definition read_cell :: "string \<Rightarrow> string option" where
  "read_cell s = (if s \<in> set na_values then None else Some s)"

definition coerce :: "(string \<Rightarrow> 'a option) \<Rightarrow> string option \<Rightarrow> 'a option" where
  "coerce conv c = (case c of None \<Rightarrow> None | Some s \<Rightarrow> conv s)"

type_synonym cells = "date option \<times> string option \<times> int option \<times> int option"

definition read_row ::
  "(string \<Rightarrow> date option) \<Rightarrow> (string \<Rightarrow> int option) \<Rightarrow> csv_row \<Rightarrow> cells" where
  "read_row to_datetime to_numeric r =
     (case r of (d, a, n, c) \<Rightarrow>
        (coerce to_datetime (read_cell d), read_cell a,
         coerce to_numeric (read_cell n), coerce to_numeric (read_cell c)))"

fun complete :: "cells \<Rightarrow> row option" where
  "complete (Some d, Some a, Some n, Some c) =
     Some \<lparr>date = d, activity_type = a, duration = n, calories_burned = c\<rparr>"
| "complete _ = None"

definition dropna :: "cells list \<Rightarrow> row list" where
  "dropna cs = List.map_filter complete cs"

fun type_cell :: "csv_row \<Rightarrow> string option" where
  "type_cell (d, a, n, c) = read_cell a"

definition type_cells :: "csv_row list \<Rightarrow> string list" where
  "type_cells rows = List.map_filter type_cell rows"

datatype frame = Frame (text_typed: bool) (frame_rows: "row list")

definition load_data ::
  "(string \<Rightarrow> date option) \<Rightarrow> (string \<Rightarrow> int option) \<Rightarrow> (string list \<Rightarrow> bool) \<Rightarrow>
     csv_file \<Rightarrow> frame \<times> string list" where
  "load_data to_datetime to_numeric non_text f =
     (case f of
        NoFile \<Rightarrow> (Frame True [], [''No file found. Starting new tracker.''])
      | Unreadable \<Rightarrow> (Frame True [], [''Failed to load data''])
      | Csv rows \<Rightarrow>
          (Frame (\<not> non_text (type_cells rows))
             (dropna (map (read_row to_datetime to_numeric) rows)), []))"

text \<open>
  \<open>__init__\<close> keeps the loaded frame as \<open>self.df\<close>. The tracker of the model is that
  of a text-typed frame; a frame of another type has none.
\<close>

definition init ::
  "(string \<Rightarrow> date option) \<Rightarrow> (string \<Rightarrow> int option) \<Rightarrow> (string list \<Rightarrow> bool) \<Rightarrow>
     csv_file \<Rightarrow> bool \<Rightarrow> (tracker \<times> string list) option" where
  "init to_datetime to_numeric non_text f w =
     (case load_data to_datetime to_numeric non_text f of
        (Frame as_text rows, out) \<Rightarrow>
          if as_text then Some (\<lparr>df = rows, disk = f, writable = w\<rparr>, out) else None)"

subsection \<open>\<open>add_activity\<close>\<close>

definition add_activity ::
  "tracker \<Rightarrow> string \<Rightarrow> string \<Rightarrow> pyval \<Rightarrow> pyval \<Rightarrow> py_error + tracker \<times> string list" where
  "add_activity t date_str activity duration_arg calories_arg =
     (case strptime date_str of
        Inl ValueError \<Rightarrow> Inr (t, [''Invalid date. Use YYYY-MM-DD.''])
      | Inr d \<Rightarrow>
          (case py_int duration_arg of
             Inl e \<Rightarrow> Inl e
           | Inr n \<Rightarrow>
               (case py_int calories_arg of
                  Inl e \<Rightarrow> Inl e
                | Inr c \<Rightarrow>
                    (case save (t\<lparr>df := df t @
                            [\<lparr>date = d, activity_type = py_strip activity,
                              duration = n, calories_burned = c\<rparr>]\<rparr>) of
                       (t', out) \<Rightarrow> Inr (t', out @ [''Activity added.''])))))"

subsection \<open>\<open>daily_summary\<close> and \<open>activity_trends\<close>\<close>



definition group_rows :: "('k \<Rightarrow> 'o::linorder) \<Rightarrow> (row \<Rightarrow> 'k) \<Rightarrow> row list \<Rightarrow> ('k \<times> row list) list" where
  "group_rows ord key rows =
     map (\<lambda>k. (k, filter (\<lambda>r. key r = k) rows)) (sort_key ord (remdups (map key rows)))"

definition mean :: "int list \<Rightarrow> rat" where
  "mean xs = of_int (sum_list xs) / of_int (int (length xs))"


definition activity_trends :: "tracker \<Rightarrow> (string \<times> rat \<times> rat) list \<times> string list" where
  "activity_trends t =
     (if df t = [] then ([], [''No data available.''])
      else (map (\<lambda>(k, g). (k, mean (map duration g), mean (map calories_burned g)))
              (group_rows id activity_type (df t)), []))"

subsection \<open>\<open>filter_by_date\<close> and \<open>filter_by_type\<close>\<close>



section \<open>Notions the properties are stated with\<close>


text \<open>
  A field of a row is missing when its cell is empty or holds one of the markers that
  stand for no value. A row parses when none of its four required fields is missing
  and its date and its two numbers can be read; \<open>record_of\<close> is the record with the
  values read.
\<close>

definition missing :: "string \<Rightarrow> bool" where
  "missing s = (s \<in> set na_values)"

definition parses ::
  "(string \<Rightarrow> date option) \<Rightarrow> (string \<Rightarrow> int option) \<Rightarrow> csv_row \<Rightarrow> bool" where
  "parses to_datetime to_numeric r =
     (case r of (d, a, n, c) \<Rightarrow>
        \<not> missing d \<and> to_datetime d \<noteq> None \<and> \<not> missing a \<and>
        \<not> missing n \<and> to_numeric n \<noteq> None \<and> \<not> missing c \<and> to_numeric c \<noteq> None)"

definition record_of ::
  "(string \<Rightarrow> date option) \<Rightarrow> (string \<Rightarrow> int option) \<Rightarrow> csv_row \<Rightarrow> row" where
  "record_of to_datetime to_numeric r =
     (case r of (d, a, n, c) \<Rightarrow>
        \<lparr>date = the (to_datetime d), activity_type = a,
         duration = the (to_numeric n), calories_burned = the (to_numeric c)\<rparr>)"

text \<open>
  Two conversions that read what \<open>to_csv\<close> writes, used where a property is run on a
  concrete file: they read a date and a number the way \<open>strptime\<close> and \<open>int\<close> do.
\<close>

definition read_back_date :: "string \<Rightarrow> date option" where
  "read_back_date s = (case strptime s of Inl e \<Rightarrow> None | Inr d \<Rightarrow> Some d)"

definition read_back_int :: "string \<Rightarrow> int option" where
  "read_back_int s = (case int_of_str s of Inl e \<Rightarrow> None | Inr n \<Rightarrow> Some n)"

text \<open>
  A choice of column type to go with them: a column that is not empty and whose cells
  all read as integers, or are all words for a truth value, is not read as text.
\<close>

definition number_text :: "string \<Rightarrow> bool" where
  "number_text s = (case int_of_str s of Inl e \<Rightarrow> False | Inr n \<Rightarrow> True)"

definition truth_text :: "string \<Rightarrow> bool" where
  "truth_text s = (s \<in> set [''True'', ''TRUE'', ''true'', ''False'', ''FALSE'', ''false''])"

definition reads_as_non_text :: "string list \<Rightarrow> bool" where
  "reads_as_non_text cs = (cs \<noteq> [] \<and> (list_all number_text cs \<or> list_all truth_text cs))"


text \<open>
  The field constraints of a record, and a record whose date and numbers, as \<open>to_csv\<close>
  writes them, are read back by the two conversions of \<open>_load_data\<close>.
\<close>

definition field_constraints :: "row \<Rightarrow> bool" where
  "field_constraints r =
     (valid_date (date r) \<and> py_strip (activity_type r) = activity_type r \<and>
      activity_type r \<noteq> [] \<and> 0 < duration r \<and> 0 \<le> calories_burned r)"

definition reads_back ::
  "(string \<Rightarrow> date option) \<Rightarrow> (string \<Rightarrow> int option) \<Rightarrow> row \<Rightarrow> bool" where
  "reads_back to_datetime to_numeric r =
     (to_datetime (date_text (date r)) = Some (date r) \<and>
      to_numeric (int_text (duration r)) = Some (duration r) \<and>
      to_numeric (int_text (calories_burned r)) = Some (calories_burned r))"


definition month_forms :: "nat \<Rightarrow> string list" where
  "month_forms m = (if m < 10 then [pad2 m, [digit_char m]] else [pad2 m])"

definition day_forms :: "nat \<Rightarrow> string list" where
  "day_forms d = (if d < 10 then [pad2 d, [digit_char d], [CHR '' '', digit_char d]] else [pad2 d])"

definition renderings :: "date \<Rightarrow> string list" where
  "renderings d =
     concat (map (\<lambda>fm. map (\<lambda>fd. pad4 (year d) @ ''-'' @ fm @ ''-'' @ fd) (day_forms (day d)))
       (month_forms (month d)))"

text \<open>The records of the aggregation example, and trackers to run the methods on.\<close>

definition example_rows :: "row list" where
  "example_rows =
     [\<lparr>date = Date 2024 1 1, activity_type = ''Run'', duration = 30, calories_burned = 300\<rparr>,
      \<lparr>date = Date 2024 1 1, activity_type = ''Swim'', duration = 20, calories_burned = 150\<rparr>,
      \<lparr>date = Date 2024 1 2, activity_type = ''Run'', duration = 40, calories_burned = 400\<rparr>]"

definition tracker_of :: "row list \<Rightarrow> tracker" where
  "tracker_of rows = \<lparr>df = rows, disk = NoFile, writable = True\<rparr>"



definition na_rows :: "row list" where
  "na_rows =
     [\<lparr>date = Date 2024 1 1, activity_type = ''NA'', duration = 30, calories_burned = 300\<rparr>]"

definition numeric_type_rows :: "row list" where
  "numeric_type_rows =
     [\<lparr>date = Date 2024 1 1, activity_type = ''5'', duration = 30, calories_burned = 300\<rparr>]"


definition five_rows_missing :: "csv_row list" where
  "five_rows_missing =
     [(''2024-01-01'', ''Run'', ''30'', ''300''),
      (''2024-01-01'', '''', ''20'', ''150''),
      (''2024-01-02'', ''Run'', ''40'', ''400''),
      (''2024-01-03'', ''Walk'', ''60'', ''200''),
      (''2024-01-04'', ''Yoga'', ''45'', ''120'')]"

definition five_rows_bad_date :: "csv_row list" where
  "five_rows_bad_date =
     [(''2024-01-01'', ''Run'', ''30'', ''300''),
      (''2024-01-01'', ''Swim'', ''20'', ''150''),
      (''2024-01-02'', ''Run'', ''40'', ''400''),
      (''2024-01-03'', ''Walk'', ''60'', ''200''),
      (''2024-02-30'', ''Yoga'', ''45'', ''120'')]"

definition five_rows :: "csv_row list" where
  "five_rows =
     [(''2024-01-01'', ''Run'', ''30'', ''300''),
      (''2024-01-01'', ''Swim'', ''20'', ''150''),
      (''2024-01-02'', ''Run'', ''forty'', ''400''),
      (''2024-01-03'', ''Walk'', ''60'', ''200''),
      (''2024-01-04'', ''Yoga'', ''45'', ''120'')]"

section \<open>Properties\<close>

subsection \<open>Digits and the matchers of \<open>strptime\<close>\<close>

lemma digit_val_lt: "is_digit c \<Longrightarrow> digit_val c < 10"
  by (auto simp add: is_digit_def digit_val_def)

lemma digit_char_digit_val: "is_digit c \<Longrightarrow> digit_char (digit_val c) = c"
  by (simp add: is_digit_def digit_val_def digit_char_def)

lemma digit_val_digit_char: "n < 10 \<Longrightarrow> digit_val (digit_char n) = n"
  by (simp add: digit_val_def digit_char_def)

lemma digit_literals:
  "digit_char 0 = CHR ''0''" "digit_char 1 = CHR ''1''" "digit_char 2 = CHR ''2''"
  "digit_char 3 = CHR ''3''" "digit_char 4 = CHR ''4''" "digit_char 5 = CHR ''5''"
  "digit_char 6 = CHR ''6''" "digit_char 7 = CHR ''7''" "digit_char 8 = CHR ''8''"
  "digit_char 9 = CHR ''9''"
  by code_simp+

lemma digit_val_literals:
  "digit_val CHR ''0'' = 0" "digit_val CHR ''1'' = 1" "digit_val CHR ''2'' = 2"
  "digit_val CHR ''3'' = 3" "digit_val CHR ''4'' = 4" "digit_val CHR ''5'' = 5"
  "digit_val CHR ''6'' = 6" "digit_val CHR ''7'' = 7" "digit_val CHR ''8'' = 8"
  "digit_val CHR ''9'' = 9"
  by code_simp+

lemma digit_one: "digit_char (Suc 0) = CHR ''1''" "digit_val CHR ''1'' = Suc 0"
  using digit_literals(2) digit_val_literals(2) by simp_all

lemma is_digit_literals:
  "is_digit CHR ''0''" "is_digit CHR ''1''" "is_digit CHR ''2''" "is_digit CHR ''3''"
  "is_digit CHR ''4''" "is_digit CHR ''5''" "is_digit CHR ''6''" "is_digit CHR ''7''"
  "is_digit CHR ''8''" "is_digit CHR ''9''" "\<not> is_digit CHR ''-''" "\<not> is_digit CHR '' ''"
  by code_simp+

lemma digit_val_zero: "is_digit c \<Longrightarrow> digit_val c = 0 \<longleftrightarrow> c = CHR ''0''"
proof
  assume "is_digit c" "digit_val c = 0"
  then have "digit_char 0 = c" using digit_char_digit_val [of c] by simp
  then show "c = CHR ''0''" by (simp only: digit_literals)
next
  assume "c = CHR ''0''"
  then show "digit_val c = 0" by (simp only: digit_val_literals)
qed

lemma in_1_9_iff: "in_1_9 c \<longleftrightarrow> is_digit c \<and> 1 \<le> digit_val c"
  using digit_val_zero [of c] by (auto simp add: in_1_9_def)

lemma lit_mem: "r \<in> set (lit c s) \<longleftrightarrow> s = c # r"
  by (cases s) auto

lemma two_chars_mem:
  "(v, r) \<in> set (two_chars p q s) \<longleftrightarrow>
     (\<exists>a b. s = a # b # r \<and> p a \<and> q b \<and> v = 10 * digit_val a + digit_val b)"
  by (induction p q s rule: two_chars.induct) auto

lemma one_char_mem:
  "(v, r) \<in> set (one_char p s) \<longleftrightarrow> (\<exists>a. s = a # r \<and> p a \<and> v = digit_val a)"
  by (cases s) auto

lemma space_char_mem:
  "(v, r) \<in> set (space_char q s) \<longleftrightarrow>
     (\<exists>b. s = CHR '' '' # b # r \<and> q b \<and> v = digit_val b)"
  by (induction q s rule: space_char.induct) auto

lemma then_lit_mem: "(v, r) \<in> set (then_lit c ms) \<longleftrightarrow> (v, c # r) \<in> set ms"
  by (induction ms) (auto simp add: then_lit_def lit_mem)

lemma match_Y_mem:
  "(y, r) \<in> set (match_Y s) \<longleftrightarrow>
     (\<exists>a b c d. s = a # b # c # d # r \<and> is_digit a \<and> is_digit b \<and> is_digit c \<and> is_digit d \<and>
        y = 1000 * digit_val a + 100 * digit_val b + 10 * digit_val c + digit_val d)"
  by (induction s rule: match_Y.induct) auto

lemma mem_concat_map_pair:
  "x \<in> set (concat (map (\<lambda>(a, b). f a b) xs)) \<longleftrightarrow>
     (\<exists>a b. (a, b) \<in> set xs \<and> x \<in> set (f a b))"
  by (induction xs) auto

lemma mem_map_pair:
  "x \<in> set (map (\<lambda>(a, b). f a b) xs) \<longleftrightarrow> (\<exists>a b. (a, b) \<in> set xs \<and> x = f a b)"
  by (induction xs) auto

lemma regex_ymd_mem:
  "(y, m, d, r) \<in> set (regex_ymd s) \<longleftrightarrow>
     (\<exists>r1 r2. (y, CHR ''-'' # r1) \<in> set (match_Y s) \<and>
        (m, CHR ''-'' # r2) \<in> set (match_m r1) \<and> (d, r) \<in> set (match_d r2))"
proof -
  have "(y, m, d, r) \<in> set (regex_ymd s) \<longleftrightarrow>
     (\<exists>r1. (y, r1) \<in> set (then_lit CHR ''-'' (match_Y s)) \<and>
       (\<exists>r2. (m, r2) \<in> set (then_lit CHR ''-'' (match_m r1)) \<and> (d, r) \<in> set (match_d r2)))"
    unfolding regex_ymd_def by (simp add: mem_concat_map_pair mem_map_pair) blast
  then show ?thesis by (simp only: then_lit_mem) blast
qed

lemma pad2_digits: "x < 10 \<Longrightarrow> y < 10 \<Longrightarrow> pad2 (10 * x + y) = [digit_char x, digit_char y]"
  by (simp add: pad2_def)

lemma div_mod_10: "y < 10 \<Longrightarrow> (10 * x + y) div 10 = (x::nat) \<and> (10 * x + y) mod 10 = y"
  by simp

lemma pad4_digits:
  "a < 10 \<Longrightarrow> b < 10 \<Longrightarrow> c < 10 \<Longrightarrow> d < 10 \<Longrightarrow>
     pad4 (1000 * a + 100 * b + 10 * c + d) =
       [digit_char a, digit_char b, digit_char c, digit_char d]"
proof -
  assume h: "a < 10" "b < 10" "c < 10" "d < 10"
  define x2 where "x2 = 10 * a + b"
  define x3 where "x3 = 10 * x2 + c"
  define n where "n = 10 * x3 + d"
  have n: "n = 1000 * a + 100 * b + 10 * c + d" by (simp add: n_def x3_def x2_def)
  have s1: "n div 10 = x3" "n mod 10 = d" using div_mod_10 [OF h(4), of x3] by (simp_all only: n_def)
  have s2: "x3 div 10 = x2" "x3 mod 10 = c" using div_mod_10 [OF h(3), of x2] by (simp_all only: x3_def)
  have s3: "x2 div 10 = a" "x2 mod 10 = b" using div_mod_10 [OF h(2), of a] by (simp_all only: x2_def)
  have "n div 100 = n div 10 div 10" "n div 1000 = n div 10 div 10 div 10"
    by (simp_all add: div_mult2_eq)
  then have "n div 100 = x2" "n div 1000 = a" by (simp_all only: s1 s2 s3)
  then have "n div 1000 mod 10 = a" "n div 100 mod 10 = b" "n div 10 mod 10 = c" "n mod 10 = d"
    using h(1) by (simp_all only: s1 s2 s3 mod_less)
  then have "pad4 n = [digit_char a, digit_char b, digit_char c, digit_char d]"
    by (simp only: pad4_def)
  then show ?thesis by (simp only: n)
qed

lemma pad4_parts:
  fixes n :: nat
  assumes h: "n \<le> 9999"
  shows "1000 * (n div 1000 mod 10) + 100 * (n div 100 mod 10) + 10 * (n div 10 mod 10) + n mod 10 = n"
proof -
  define q1 where "q1 = n div 10"
  define q2 where "q2 = q1 div 10"
  define q3 where "q3 = q2 div 10"
  have e: "n div 10 = q1" "n div 100 = q2" "n div 1000 = q3"
    by (simp_all add: q1_def q2_def q3_def div_mult2_eq)
  have "q3 < 10" using h e(3) by simp
  then have m: "q3 mod 10 = q3" by simp
  have "n = 10 * q1 + n mod 10" "q1 = 10 * q2 + q1 mod 10" "q2 = 10 * q3 + q2 mod 10"
    by (simp_all add: q1_def q2_def q3_def)
  then have "1000 * q3 + 100 * (q2 mod 10) + 10 * (q1 mod 10) + n mod 10 = n"
    by linarith
  then show ?thesis by (simp only: e m)
qed

lemma pad2_chars:
  "is_digit a \<Longrightarrow> is_digit b \<Longrightarrow> pad2 (10 * digit_val a + digit_val b) = [a, b]"
  by (simp add: pad2_digits digit_val_lt digit_char_digit_val)

lemma match_Y_form:
  assumes "(y, r) \<in> set (match_Y s)"
  shows "y \<le> 9999 \<and> s = pad4 y @ r"
proof -
  from assms obtain a b c d where s: "s = a # b # c # d # r"
    and dg: "is_digit a" "is_digit b" "is_digit c" "is_digit d"
    and y: "y = 1000 * digit_val a + 100 * digit_val b + 10 * digit_val c + digit_val d"
    by (auto simp add: match_Y_mem)
  from dg have lt: "digit_val a < 10" "digit_val b < 10" "digit_val c < 10" "digit_val d < 10"
    by (simp_all add: digit_val_lt)
  then have "y \<le> 9999" using y by simp
  moreover have "pad4 y = [a, b, c, d]"
    using lt dg by (simp add: y pad4_digits digit_char_digit_val)
  ultimately show ?thesis using s by simp
qed

lemma match_m_form:
  assumes "(m, r) \<in> set (match_m s)"
  shows "1 \<le> m \<and> m \<le> 12 \<and> (\<exists>fm \<in> set (month_forms m). s = fm @ r)"
proof -
  from assms consider
    (tens) b where "s = CHR ''1'' # b # r" "b \<in> set ''012''" "m = 10 * digit_val CHR ''1'' + digit_val b"
  | (zero) b where "s = CHR ''0'' # b # r" "in_1_9 b" "m = 10 * digit_val CHR ''0'' + digit_val b"
  | (one) a where "s = a # r" "in_1_9 a" "m = digit_val a"
    by (auto simp add: match_m_def two_chars_mem one_char_mem)
  then show ?thesis
  proof cases
    case tens
    from tens(2) have d: "is_digit b" "digit_val b \<le> 2"
      by (auto simp add: is_digit_literals digit_val_literals)
    have "pad2 m = [CHR ''1'', b]"
      unfolding tens(3) using d by (intro pad2_chars) (simp_all add: is_digit_literals)
    moreover have "10 \<le> m" "m \<le> 12" using tens(3) d by (simp_all add: digit_val_literals)
    ultimately show ?thesis using tens(1) by (simp add: month_forms_def)
  next
    case zero
    then have d: "is_digit b" "1 \<le> digit_val b" "digit_val b < 10"
      by (simp_all add: in_1_9_iff digit_val_lt)
    have "pad2 m = [CHR ''0'', b]"
      unfolding zero(3) using d by (intro pad2_chars) (simp_all add: is_digit_literals)
    moreover have "1 \<le> m" "m < 10" using zero(3) d by (simp_all add: digit_val_literals)
    ultimately show ?thesis using zero(1) by (simp add: month_forms_def)
  next
    case one
    then have d: "is_digit a" "1 \<le> digit_val a" "digit_val a < 10"
      by (simp_all add: in_1_9_iff digit_val_lt)
    then show ?thesis using one by (simp add: month_forms_def digit_char_digit_val)
  qed
qed

lemma match_d_form:
  assumes "(d, r) \<in> set (match_d s)"
  shows "1 \<le> d \<and> d \<le> 31 \<and> (\<exists>fd \<in> set (day_forms d). s = fd @ r)"
proof -
  from assms consider
    (thirty) b where "s = CHR ''3'' # b # r" "b \<in> set ''01''" "d = 10 * digit_val CHR ''3'' + digit_val b"
  | (tens) a b where "s = a # b # r" "a \<in> set ''12''" "is_digit b" "d = 10 * digit_val a + digit_val b"
  | (zero) b where "s = CHR ''0'' # b # r" "in_1_9 b" "d = 10 * digit_val CHR ''0'' + digit_val b"
  | (one) a where "s = a # r" "in_1_9 a" "d = digit_val a"
  | (space) b where "s = CHR '' '' # b # r" "in_1_9 b" "d = digit_val b"
    by (auto simp add: match_d_def two_chars_mem one_char_mem space_char_mem)
  then show ?thesis
  proof cases
    case thirty
    from thirty(2) have g: "is_digit b" "digit_val b \<le> 1"
      by (auto simp add: is_digit_literals digit_val_literals)
    have "pad2 d = [CHR ''3'', b]"
      unfolding thirty(3) using g by (intro pad2_chars) (simp_all add: is_digit_literals)
    moreover have "30 \<le> d" "d \<le> 31" using thirty(3) g by (simp_all add: digit_val_literals)
    ultimately show ?thesis using thirty(1) by (simp add: day_forms_def)
  next
    case tens
    from tens(2) have g: "is_digit a" "1 \<le> digit_val a" "digit_val a \<le> 2"
      by (auto simp add: is_digit_literals digit_val_literals)
    have "pad2 d = [a, b]"
      unfolding tens(4) using g tens(3) by (intro pad2_chars)
    moreover have "10 \<le> d" "d \<le> 29" using tens(4) g digit_val_lt [OF tens(3)] by simp_all
    ultimately show ?thesis using tens(1) by (simp add: day_forms_def)
  next
    case zero
    then have g: "is_digit b" "1 \<le> digit_val b" "digit_val b < 10"
      by (simp_all add: in_1_9_iff digit_val_lt)
    have "pad2 d = [CHR ''0'', b]"
      unfolding zero(3) using g by (intro pad2_chars) (simp_all add: is_digit_literals)
    moreover have "1 \<le> d" "d < 10" using zero(3) g by (simp_all add: digit_val_literals)
    ultimately show ?thesis using zero(1) by (simp add: day_forms_def)
  next
    case one
    then have g: "is_digit a" "1 \<le> digit_val a" "digit_val a < 10"
      by (simp_all add: in_1_9_iff digit_val_lt)
    then show ?thesis using one by (simp add: day_forms_def digit_char_digit_val)
  next
    case space
    then have g: "is_digit b" "1 \<le> digit_val b" "digit_val b < 10"
      by (simp_all add: in_1_9_iff digit_val_lt)
    then show ?thesis using space by (simp add: day_forms_def digit_char_digit_val)
  qed
qed

lemma is_digit_digit_char: "n < 10 \<Longrightarrow> is_digit (digit_char n)"
proof -
  have "list_all (\<lambda>k. is_digit (digit_char k)) [0..<10]" by code_simp
  then show "n < 10 \<Longrightarrow> is_digit (digit_char n)" by (simp add: list_all_iff)
qed

lemma match_Y_pad4: "y \<le> 9999 \<Longrightarrow> match_Y (pad4 y @ r) = [(y, r)]"
proof -
  assume h: "y \<le> 9999"
  define a where "a = y div 1000 mod 10"
  define b where "b = y div 100 mod 10"
  define c where "c = y div 10 mod 10"
  define d where "d = y mod 10"
  have lt: "a < 10" "b < 10" "c < 10" "d < 10"
    by (simp_all add: a_def b_def c_def d_def)
  have y: "1000 * a + 100 * b + 10 * c + d = y"
    using pad4_parts [OF h] by (simp only: a_def b_def c_def d_def)
  have "pad4 y = [digit_char a, digit_char b, digit_char c, digit_char d]"
    by (simp only: pad4_def a_def b_def c_def d_def)
  then show ?thesis
    using lt y by (simp add: is_digit_digit_char digit_val_digit_char)
qed

lemma month_cases: "1 \<le> m \<Longrightarrow> m \<le> 12 \<Longrightarrow> m \<in> {1, 2, 3, 4, 5, 6, 7, 8, 9, 10, 11, 12 :: nat}"
  by simp arith

lemma day_cases:
  "1 \<le> d \<Longrightarrow> d \<le> 31 \<Longrightarrow>
     d \<in> {1, 2, 3, 4, 5, 6, 7, 8, 9, 10, 11, 12, 13, 14, 15, 16, 17, 18, 19, 20, 21, 22, 23,
           24, 25, 26, 27, 28, 29, 30, 31 :: nat}"
  by simp arith

lemma match_m_rendering:
  assumes "1 \<le> m" "m \<le> 12" "fm \<in> set (month_forms m)"
  shows "then_lit CHR ''-'' (match_m (fm @ CHR ''-'' # r)) = [(m, r)]"
  using month_cases [OF assms(1,2)] assms(3)
  by (auto simp add: month_forms_def pad2_def then_lit_def match_m_def digit_one digit_literals digit_val_literals is_digit_literals in_1_9_def)

lemma match_d_rendering:
  assumes "1 \<le> d" "d \<le> 31" "fd \<in> set (day_forms d)"
  shows "\<exists>rest. match_d fd = (d, []) # rest"
  using day_cases [OF assms(1,2)] assms(3)
  by (auto simp add: day_forms_def pad2_def match_d_def digit_one digit_literals digit_val_literals is_digit_literals in_1_9_def)

subsection \<open>What \<open>strptime\<close> accepts\<close>

lemma days_in_month_le: "days_in_month y m \<le> 31"
  by (simp add: days_in_month_def)

lemma renderings_mem:
  "s \<in> set (renderings dt) \<longleftrightarrow>
     (\<exists>fm fd. fm \<in> set (month_forms (month dt)) \<and> fd \<in> set (day_forms (day dt)) \<and>
        s = pad4 (year dt) @ CHR ''-'' # fm @ CHR ''-'' # fd)"
  by (auto simp add: renderings_def)

lemma strptime_sound:
  assumes "strptime s = Inr dt"
  shows "valid_date dt \<and> s \<in> set (renderings dt)"
proof -
  from assms obtain y m d xs where r: "regex_ymd s = (y, m, d, []) # xs"
    and v: "valid_date (Date y m d)" and dt: "dt = Date y m d"
    by (auto simp add: strptime_def split: list.splits if_splits)
  from r have "(y, m, d, []) \<in> set (regex_ymd s)" by simp
  then obtain r1 r2 where a: "(y, CHR ''-'' # r1) \<in> set (match_Y s)"
    and b: "(m, CHR ''-'' # r2) \<in> set (match_m r1)" and c: "(d, []) \<in> set (match_d r2)"
    by (auto simp add: regex_ymd_mem)
  from match_Y_form [OF a] have s: "s = pad4 y @ CHR ''-'' # r1" by simp
  from match_m_form [OF b] obtain fm where fm: "fm \<in> set (month_forms m)"
    and r1: "r1 = fm @ CHR ''-'' # r2" by auto
  from match_d_form [OF c] obtain fd where fd: "fd \<in> set (day_forms d)" and r2: "r2 = fd"
    by auto
  from s r1 r2 fm fd have "s \<in> set (renderings (Date y m d))"
    by (auto simp add: renderings_mem)
  with v dt show ?thesis by simp
qed

lemma regex_ymd_rendering:
  assumes "y \<le> 9999" "1 \<le> m" "m \<le> 12" "1 \<le> d" "d \<le> 31"
    and "fm \<in> set (month_forms m)" "fd \<in> set (day_forms d)"
  shows "\<exists>rest. regex_ymd (pad4 y @ CHR ''-'' # fm @ CHR ''-'' # fd) = (y, m, d, []) # rest"
proof -
  from match_d_rendering [OF assms(4,5,7)] obtain rest where
    "match_d fd = (d, []) # rest" by blast
  then show ?thesis
    using match_Y_pad4 [OF assms(1)] match_m_rendering [OF assms(2,3,6)]
    by (simp add: regex_ymd_def then_lit_def)
qed

lemma strptime_rendering:
  assumes "valid_date dt" "s \<in> set (renderings dt)"
  shows "strptime s = Inr dt"
proof -
  from assms(2) obtain fm fd where f: "fm \<in> set (month_forms (month dt))"
      "fd \<in> set (day_forms (day dt))"
    and s: "s = pad4 (year dt) @ CHR ''-'' # fm @ CHR ''-'' # fd"
    by (auto simp add: renderings_mem)
  from assms(1) have b: "year dt \<le> 9999" "1 \<le> month dt" "month dt \<le> 12" "1 \<le> day dt"
      "day dt \<le> 31"
    using days_in_month_le [of "year dt" "month dt"] by (simp_all add: valid_date_def)
  from regex_ymd_rendering [OF b f] obtain rest where
    "regex_ymd s = (year dt, month dt, day dt, []) # rest"
    unfolding s by blast
  then show ?thesis using assms(1) by (simp add: strptime_def)
qed

lemma strptime_iff: "strptime s = Inr dt \<longleftrightarrow> valid_date dt \<and> s \<in> set (renderings dt)"
  using strptime_sound strptime_rendering by blast



lemma strptime_valid: "strptime s = Inr dt \<Longrightarrow> valid_date dt"
  by (simp add: strptime_iff)

subsection \<open>Trimming, and reading back what \<open>to_csv\<close> writes\<close>

lemma is_digit_not_space: "is_digit c \<Longrightarrow> \<not> py_isspace c"
  by (auto simp add: is_digit_def py_isspace_def Let_def)

lemma sign_chars:
  "\<not> py_isspace CHR ''-''" "\<not> is_digit CHR ''+''" "CHR ''-'' \<noteq> CHR ''+''"
  by code_simp+

lemma py_strip_id:
  assumes "s \<noteq> []" "\<not> py_isspace (hd s)" "\<not> py_isspace (last s)"
  shows "py_strip s = s"
proof -
  from assms(1,2) have a: "dropWhile py_isspace s = s" by (cases s) simp_all
  from assms(1,3) have "dropWhile py_isspace (rev s) = rev s"
    by (cases "rev s") (simp_all add: hd_rev [symmetric])
  with a show ?thesis by (simp add: py_strip_def)
qed

lemma py_strip_spec:
  "\<exists>pre post. s = pre @ py_strip s @ post \<and> list_all py_isspace pre \<and>
     list_all py_isspace post \<and>
     (py_strip s = [] \<or> (\<not> py_isspace (hd (py_strip s)) \<and> \<not> py_isspace (last (py_strip s))))"
proof -
  define u where "u = dropWhile py_isspace s"
  define w where "w = dropWhile py_isspace (rev u)"
  have st: "py_strip s = rev w" by (simp add: py_strip_def u_def w_def)
  have "rev u = takeWhile py_isspace (rev u) @ w" by (simp add: w_def)
  then have "rev (rev u) = rev (takeWhile py_isspace (rev u) @ w)" by (rule arg_cong)
  then have u: "u = rev w @ rev (takeWhile py_isspace (rev u))" by simp
  have s: "s = takeWhile py_isspace s @ u" by (simp add: u_def)
  have p1: "list_all py_isspace (takeWhile py_isspace s)"
    by (simp add: list_all_iff) (meson set_takeWhileD)
  have p2: "list_all py_isspace (rev (takeWhile py_isspace (rev u)))"
    by (simp add: list_all_iff) (meson set_takeWhileD)
  have e: "w = [] \<or> (\<not> py_isspace (hd (rev w)) \<and> \<not> py_isspace (last (rev w)))"
  proof (cases "w = []")
    case True
    then show ?thesis by simp
  next
    case False
    then have l: "\<not> py_isspace (hd w)" unfolding w_def by (rule hd_dropWhile)
    from False have "rev w \<noteq> []" by simp
    then have "hd u = hd (rev w)" using u by (metis hd_append2)
    moreover have "u \<noteq> []" using u False by auto
    then have "\<not> py_isspace (hd u)" unfolding u_def by (rule hd_dropWhile)
    ultimately show ?thesis using l False by (simp add: last_rev)
  qed
  from s u have "s = takeWhile py_isspace s @ rev w @ rev (takeWhile py_isspace (rev u))"
    by simp
  with p1 p2 e show ?thesis unfolding st by (metis rev_is_Nil_conv)
qed

lemma digits_acc_digits:
  "list_all is_digit ds \<Longrightarrow>
     digits_acc a ds = Some (foldl (\<lambda>v c. 10 * v + digit_val c) a ds)"
  by (induction a ds rule: digits_acc.induct) simp_all

lemma py_digits_digits:
  "ds \<noteq> [] \<Longrightarrow> list_all is_digit ds \<Longrightarrow>
     py_digits ds = Some (foldl (\<lambda>v c. 10 * v + digit_val c) 0 ds)"
  by (cases ds) (simp_all add: py_digits_def digits_acc_digits)

lemma nat_text_value:
  "nat_text n \<noteq> [] \<and> list_all is_digit (nat_text n) \<and>
     foldl (\<lambda>v c. 10 * v + digit_val c) 0 (nat_text n) = n"
proof (induction n rule: nat_text.induct)
  case (1 n)
  show ?case
  proof (cases "n < 10")
    case True
    then show ?thesis
      by (subst (1 2 3) nat_text.simps) (simp add: is_digit_digit_char digit_val_digit_char)
  next
    case False
    have m: "n mod 10 < 10" by simp
    from False 1 show ?thesis
      by (subst (1 2 3) nat_text.simps)
        (simp add: is_digit_digit_char [OF m] digit_val_digit_char [OF m])
  qed
qed

lemma py_digits_nat_text: "py_digits (nat_text n) = Some n"
  using nat_text_value [of n] by (simp add: py_digits_digits)

lemma nat_text_ends:
  "is_digit (hd (nat_text n)) \<and> is_digit (last (nat_text n))"
  using nat_text_value [of n] by (cases "nat_text n") (auto simp add: list_all_iff)

lemma int_of_str_int_text: "int_of_str (int_text i) = Inr i"
proof (cases "i < 0")
  case True
  define ds where "ds = nat_text (nat (- i))"
  have ne: "ds \<noteq> []" and e: "is_digit (last ds)"
    using nat_text_value [of "nat (- i)"] nat_text_ends [of "nat (- i)"] by (simp_all add: ds_def)
  have t: "int_text i = CHR ''-'' # ds" using True by (simp add: int_text_def ds_def)
  have "py_strip (CHR ''-'' # ds) = CHR ''-'' # ds"
    using ne e by (intro py_strip_id) (simp_all add: sign_chars is_digit_not_space)
  then show ?thesis
    using True py_digits_nat_text [of "nat (- i)"] by (simp add: int_of_str_def t ds_def)
next
  case False
  define ds where "ds = nat_text (nat i)"
  have ne: "ds \<noteq> []" and h: "is_digit (hd ds)" and e: "is_digit (last ds)"
    using nat_text_value [of "nat i"] nat_text_ends [of "nat i"] by (simp_all add: ds_def)
  have t: "int_text i = ds" using False by (simp add: int_text_def ds_def)
  have s: "py_strip ds = ds"
    using ne h e by (intro py_strip_id) (simp_all add: is_digit_not_space)
  from ne obtain c r where cr: "ds = c # r" by (cases ds) auto
  with h have "c \<noteq> CHR ''-''" "c \<noteq> CHR ''+''"
    using is_digit_literals(11) sign_chars(2) by auto
  then show ?thesis
    using False py_digits_nat_text [of "nat i"] s cr
    by (simp add: int_of_str_def t ds_def [symmetric])
qed



subsection \<open>Claim about date parsing\<close>




subsection \<open>Grouping\<close>

lemma group_rows_keys:
  "map fst (group_rows ord key rows) = sort_key ord (remdups (map key rows))"
  by (simp add: group_rows_def comp_def)



lemma agg_keys:
  "map fst (map (\<lambda>(k, g). (k, f g, h g)) (group_rows ord key rows)) =
     sort_key ord (remdups (map key rows))"
  by (simp add: group_rows_def comp_def)












lemma activity_trends_example:
  "fst (activity_trends \<lparr>df = example_rows, disk = f, writable = w\<rparr>) =
     [(''Run'', 35, 350), (''Swim'', 20, 150)]"
  by (simp add: activity_trends_def group_rows_def example_rows_def mean_def
      less_char_def less_eq_char_def)

subsection \<open>Claims about the aggregations\<close>






subsection \<open>Claims about the filters\<close>








subsection \<open>Claims about \<open>add_activity\<close>\<close>

text \<open>
  C9 says that no operation raises, not even \<open>add_activity\<close> on a duration that is
  no number. The date is parsed under \<open>try\<close>, but \<open>int(duration)\<close> and
  \<open>int(calories)\<close> are not: on the duration \<open>"abc"\<close> the call raises \<open>ValueError\<close>.
\<close>

theorem add_activity_non_numeric_raises:
  "add_activity (tracker_of example_rows) ''2024-01-03'' ''Run'' (PyStr ''abc'') (PyInt 300) =
     Inl ValueError"
  by code_simp

text \<open>
  C10: when the date does not parse, \<open>add_activity\<close> prints its message and returns
  with the tracker as it was: the rows and the file are unchanged.
\<close>

theorem add_activity_bad_date_no_change:
  "strptime date_str = Inl ValueError \<Longrightarrow>
     add_activity t date_str activity duration_arg calories_arg =
       Inr (t, [''Invalid date. Use YYYY-MM-DD.''])"
  by (simp add: add_activity_def)

theorem add_activity_bad_date_no_change_witness:
  "strptime ''2024-13-01'' = Inl ValueError \<and>
   add_activity (tracker_of example_rows) ''2024-13-01'' ''Run'' (PyInt 30) (PyInt 300) =
     Inr (tracker_of example_rows, [''Invalid date. Use YYYY-MM-DD.''])"
proof -
  have h: "strptime ''2024-13-01'' = Inl ValueError" by code_simp
  from h add_activity_bad_date_no_change [OF h] show ?thesis by (intro conjI)
qed

end
